theory Spec2Isabelle
  imports Main "HOL-Library.Word" "HOL-Library.List_Lexorder" "HOL-Library.Multiset"
begin

unbundle bit_operations_syntax

section \<open>JavaScript values used by App.jsx\<close>

text \<open>
  A JavaScript string is a sequence of 16-bit code units; \<open>charCodeAt\<close> reads one of
  them. String literals of the source are written \<open>js ''...''\<close>; characters outside
  ASCII are given by their code unit.

  A JavaScript number is a double. The numbers of this program are integers, and the
  model computes with them as \<open>int\<close>, which is what the double holds as long as its
  magnitude stays below \<open>2 ^ 53\<close>.
\<close>

type_synonym code_unit = "16 word"
type_synonym js_string = "code_unit list"

abbreviation js :: "string \<Rightarrow> js_string" where
  "js s \<equiv> map of_char s"

text \<open>\<open>ToInt32\<close> of ECMAScript: the operand of every bitwise operator goes through it.\<close>

definition ToInt32 :: "int \<Rightarrow> int" where
  "ToInt32 x = (x + 2 ^ 31) mod 2 ^ 32 - 2 ^ 31"

text \<open>\<open>x << n\<close> and \<open>x >> n\<close> on numbers, the shift count taken modulo 32.\<close>

definition js_shl :: "int \<Rightarrow> nat \<Rightarrow> int" where
  "js_shl x n = ToInt32 (push_bit (n mod 32) (ToInt32 x))"

definition js_sar :: "int \<Rightarrow> nat \<Rightarrow> int" where
  "js_sar x n = drop_bit (n mod 32) (ToInt32 x)"

definition js_band :: "int \<Rightarrow> int \<Rightarrow> int" where
  "js_band x y = ToInt32 x AND ToInt32 y"

text \<open>\<open>Number.prototype.toString(16)\<close> on a non-negative integer.\<close>

definition hex_digit :: "nat \<Rightarrow> code_unit" where
  "hex_digit d = (if d < 10 then of_nat (48 + d) else of_nat (87 + d))"

fun toString16 :: "nat \<Rightarrow> js_string" where
  "toString16 n = (if n < 16 then [hex_digit n] else toString16 (n div 16) @ [hex_digit (n mod 16)])"

declare toString16.simps [simp del]

text \<open>\<open>s.substr(-k)\<close>: the last \<open>k\<close> code units of \<open>s\<close> (all of \<open>s\<close> when it is shorter).\<close>

definition substr_last :: "nat \<Rightarrow> js_string \<Rightarrow> js_string" where
  "substr_last k s = drop (length s - k) s"

section \<open>getPropositionColor\<close>

text \<open>
  The first loop of \<open>getPropositionColor\<close>:
  \<open>hash = code.charCodeAt(i) + ((hash << 5) - hash)\<close>.
  Only \<open><<\<close> truncates to 32 bits; the subtraction and the addition are number arithmetic.
\<close>

fun hash_loop :: "int \<Rightarrow> js_string \<Rightarrow> int" where
  "hash_loop hash [] = hash"
| "hash_loop hash (c # cs) = hash_loop (uint c + (js_shl hash 5 - hash)) cs"

text \<open>One round of the second loop: \<open>value = (hash >> (i * 8)) & 0xFF\<close>.\<close>

definition color_value :: "int \<Rightarrow> nat \<Rightarrow> int" where
  "color_value hash i = js_band (js_sar hash (i * 8)) 0xFF"

definition color_part :: "int \<Rightarrow> nat \<Rightarrow> js_string" where
  "color_part hash i = substr_last 2 (js ''00'' @ toString16 (nat (color_value hash i)))"

definition getPropositionColor :: "js_string \<Rightarrow> js_string" where
  "getPropositionColor code =
     (let hash = hash_loop 0 code
      in js ''#'' @ color_part hash 0 @ color_part hash 1 @ color_part hash 2)"

subsection \<open>The reference definition of the colour, on 32-bit words\<close>



definition hex2 :: "nat \<Rightarrow> js_string" where
  "hex2 b = [hex_digit (b div 16), hex_digit (b mod 16)]"


section \<open>parsePropositionCode\<close>

text \<open>
  The character classes of the regular expression
  \<open>/([A-Z]+)\s*(\d+)\/(\d{4})/i\<close>. Without the \<open>u\<close> flag, \<open>[A-Z]\<close> under \<open>i\<close> matches
  exactly the ASCII letters; \<open>\d\<close> is \<open>[0-9]\<close>; \<open>\s\<close> is the white space and line
  terminator code units of ECMAScript.
\<close>

definition is_letter :: "code_unit \<Rightarrow> bool" where
  "is_letter c \<longleftrightarrow> (0x41 \<le> c \<and> c \<le> 0x5A) \<or> (0x61 \<le> c \<and> c \<le> 0x7A)"

definition is_digit :: "code_unit \<Rightarrow> bool" where
  "is_digit c \<longleftrightarrow> 0x30 \<le> c \<and> c \<le> 0x39"

definition is_space :: "code_unit \<Rightarrow> bool" where
  "is_space c \<longleftrightarrow>
     (0x09 \<le> c \<and> c \<le> 0x0D) \<or> c = 0x20 \<or> c = 0xA0 \<or> c = 0x1680
     \<or> (0x2000 \<le> c \<and> c \<le> 0x200A) \<or> c = 0x2028 \<or> c = 0x2029 \<or> c = 0x202F
     \<or> c = 0x205F \<or> c = 0x3000 \<or> c = 0xFEFF"

text \<open>
  A backtracking matcher in continuation style. \<open>try_desc f lo n\<close> tries the
  repetition counts \<open>n, n - 1, \<dots>, lo\<close> in this order and returns the first success,
  which is how a greedy quantifier gives characters back.
\<close>

fun try_desc :: "(nat \<Rightarrow> 'a option) \<Rightarrow> nat \<Rightarrow> nat \<Rightarrow> 'a option" where
  "try_desc f lo 0 = (if 0 < lo then None else f 0)"
| "try_desc f lo (Suc n) =
     (if Suc n < lo then None
      else (case f (Suc n) of Some r \<Rightarrow> Some r | None \<Rightarrow> try_desc f lo n))"

definition greedy ::
  "(code_unit \<Rightarrow> bool) \<Rightarrow> nat \<Rightarrow> js_string \<Rightarrow> (js_string \<Rightarrow> js_string \<Rightarrow> 'a option) \<Rightarrow> 'a option"
where
  "greedy p lo s k = try_desc (\<lambda>n. k (take n s) (drop n s)) lo (length (takeWhile p s))"

text \<open>The tail of the pattern: \<open>\/(\d{4})\<close>.\<close>

definition slash_year :: "js_string \<Rightarrow> js_string option" where
  "slash_year r =
     (case r of
        [] \<Rightarrow> None
      | c # r' \<Rightarrow>
          if c = 0x2F \<and> 4 \<le> length r' \<and> list_all is_digit (take 4 r') then Some (take 4 r')
          else None)"

text \<open>
  A match attempt at the start of \<open>s\<close>; the result holds the three groups.
  \<open>year_cont\<close> is what follows the digits of the second group.
\<close>

definition year_cont ::
  "js_string \<Rightarrow> js_string \<Rightarrow> js_string \<Rightarrow> (js_string \<times> js_string \<times> js_string) option"
where
  "year_cont g1 g2 r3 = (case slash_year r3 of None \<Rightarrow> None | Some g3 \<Rightarrow> Some (g1, g2, g3))"

definition match_here :: "js_string \<Rightarrow> (js_string \<times> js_string \<times> js_string) option" where
  "match_here s =
     greedy is_letter 1 s (\<lambda>g1 r1.
       greedy is_space 0 r1 (\<lambda>_ r2.
         greedy is_digit 1 r2 (year_cont g1)))"

text \<open>\<open>code.match(re)\<close> without the \<open>g\<close> flag: the first start position that matches.\<close>

fun regex_match :: "js_string \<Rightarrow> (js_string \<times> js_string \<times> js_string) option" where
  "regex_match [] = match_here []"
| "regex_match (c # cs) =
     (case match_here (c # cs) of Some g \<Rightarrow> Some g | None \<Rightarrow> regex_match cs)"

text \<open>\<open>toUpperCase\<close> and \<open>parseInt(_, 10)\<close>, on what the groups can hold.\<close>

definition toUpperCase :: "js_string \<Rightarrow> js_string" where
  "toUpperCase s = map (\<lambda>c. if 0x61 \<le> c \<and> c \<le> 0x7A then c - 0x20 else c) s"

definition parseInt10 :: "js_string \<Rightarrow> nat" where
  "parseInt10 s = foldl (\<lambda>n c. 10 * n + (unat c - 48)) 0 (takeWhile is_digit s)"

record parsed_code =
  siglaTipo :: js_string
  numero :: nat
  ano :: nat

definition parsePropositionCode :: "js_string \<Rightarrow> parsed_code option" where
  "parsePropositionCode code =
     (case regex_match code of
        Some (p1, p2, p3) \<Rightarrow>
          Some \<lparr>siglaTipo = toUpperCase p1, numero = parseInt10 p2, ano = parseInt10 p3\<rparr>
      | None \<Rightarrow> None)"

subsection \<open>The specification's wording of the accepted codes\<close>




section \<open>Dates\<close>

text \<open>
  The \<open>Date\<close> functions of ECMAScript that \<open>getWeekStart\<close> and the comparison of
  the latest movements use. A time value is a number of milliseconds since
  1970-01-01T00:00Z. The host's time zone is a parameter \<open>tza\<close>, the offset of local
  time from UTC in milliseconds, taken as constant (no daylight saving change).
\<close>

definition msPerDay :: int where
  "msPerDay = 86400000"

definition Day :: "int \<Rightarrow> int" where
  "Day t = t div msPerDay"

definition TimeWithinDay :: "int \<Rightarrow> int" where
  "TimeWithinDay t = t mod msPerDay"

definition WeekDay :: "int \<Rightarrow> int" where
  "WeekDay t = (Day t + 4) mod 7"

text \<open>The day number of a date of the proleptic Gregorian calendar, and back.\<close>

definition days_from_civil :: "int \<Rightarrow> int \<Rightarrow> int \<Rightarrow> int" where
  "days_from_civil y m d =
     (let y' = (if m \<le> 2 then y - 1 else y);
          era = y' div 400;
          yoe = y' - era * 400;
          doy = (153 * (if m > 2 then m - 3 else m + 9) + 2) div 5 + d - 1;
          doe = yoe * 365 + yoe div 4 - yoe div 100 + doy
      in era * 146097 + doe - 719468)"

definition civil_from_days :: "int \<Rightarrow> int \<times> int \<times> int" where
  "civil_from_days z =
     (let z' = z + 719468;
          era = z' div 146097;
          doe = z' - era * 146097;
          yoe = (doe - doe div 1460 + doe div 36524 - doe div 146096) div 365;
          doy = doe - (365 * yoe + yoe div 4 - yoe div 100);
          mp = (5 * doy + 2) div 153;
          d = doy - (153 * mp + 2) div 5 + 1;
          m = (if mp < 10 then mp + 3 else mp - 9);
          y = yoe + era * 400
      in (if m \<le> 2 then y + 1 else y, m, d))"

definition YearFromTime :: "int \<Rightarrow> int" where
  "YearFromTime t = fst (civil_from_days (Day t))"

text \<open>\<open>MonthFromTime\<close> counts months from 0, as ECMAScript does.\<close>

definition MonthFromTime :: "int \<Rightarrow> int" where
  "MonthFromTime t = fst (snd (civil_from_days (Day t))) - 1"

definition DateFromTime :: "int \<Rightarrow> int" where
  "DateFromTime t = snd (snd (civil_from_days (Day t)))"

definition MakeDay :: "int \<Rightarrow> int \<Rightarrow> int \<Rightarrow> int" where
  "MakeDay year month date =
     days_from_civil (year + month div 12) (month mod 12 + 1) 1 + date - 1"

definition MakeTime :: "int \<Rightarrow> int \<Rightarrow> int \<Rightarrow> int \<Rightarrow> int" where
  "MakeTime hour minute sec ms = hour * 3600000 + minute * 60000 + sec * 1000 + ms"

definition MakeDate :: "int \<Rightarrow> int \<Rightarrow> int" where
  "MakeDate day time = day * msPerDay + time"

definition LocalTime :: "int \<Rightarrow> int \<Rightarrow> int" where
  "LocalTime tza t = t + tza"

definition UTC :: "int \<Rightarrow> int \<Rightarrow> int" where
  "UTC tza t = t - tza"

subsection \<open>Parsing a date string\<close>

text \<open>
  \<open>new Date(string)\<close> on the ISO forms \<open>YYYY-MM-DD\<close> and
  \<open>YYYY-MM-DDTHH:mm\<close>, the latter with optional \<open>:ss\<close>, \<open>.sss\<close> and \<open>Z\<close>. A date
  without a time is UTC; a date with a time and no \<open>Z\<close> is local time. Any other
  string, and a field out of range, gives \<open>None\<close>: the invalid date, whose time
  value is NaN. (What an engine makes of other strings is implementation-defined.)
\<close>

definition num :: "js_string \<Rightarrow> nat option" where
  "num s = (if s \<noteq> [] \<and> list_all is_digit s then Some (parseInt10 s) else None)"

definition leap_year :: "nat \<Rightarrow> bool" where
  "leap_year y \<longleftrightarrow> (y mod 4 = 0 \<and> y mod 100 \<noteq> 0) \<or> y mod 400 = 0"

definition days_in_month :: "nat \<Rightarrow> nat \<Rightarrow> nat" where
  "days_in_month y m =
     (if m = 2 then (if leap_year y then 29 else 28)
      else if m = 4 \<or> m = 6 \<or> m = 9 \<or> m = 11 then 30 else 31)"

definition parse_date :: "js_string \<Rightarrow> int option" where
  "parse_date s =
     (if length s = 10 \<and> s ! 4 = 0x2D \<and> s ! 7 = 0x2D then
        (case (num (take 4 s), num (take 2 (drop 5 s)), num (drop 8 s)) of
           (Some y, Some m, Some d) \<Rightarrow>
             if 1 \<le> m \<and> m \<le> 12 \<and> 1 \<le> d \<and> d \<le> days_in_month y m
             then Some (MakeDay (int y) (int m - 1) (int d))
             else None
         | _ \<Rightarrow> None)
      else None)"

text \<open>The part after \<open>HH:mm\<close>: milliseconds, and whether a \<open>Z\<close> ends the string.\<close>

definition parse_zone :: "js_string \<Rightarrow> bool option" where
  "parse_zone r = (if r = [] then Some False else if r = [0x5A] then Some True else None)"

definition parse_fraction :: "js_string \<Rightarrow> (int \<times> bool) option" where
  "parse_fraction r =
     (if 4 \<le> length r \<and> r ! 0 = 0x2E then
        (case (num (take 3 (drop 1 r)), parse_zone (drop 4 r)) of
           (Some ms, Some z) \<Rightarrow> Some (int ms, z)
         | _ \<Rightarrow> None)
      else map_option (Pair 0) (parse_zone r))"

definition parse_seconds :: "js_string \<Rightarrow> (int \<times> bool) option" where
  "parse_seconds r =
     (if 3 \<le> length r \<and> r ! 0 = 0x3A then
        (case (num (take 2 (drop 1 r)), parse_fraction (drop 3 r)) of
           (Some sec, Some (ms, z)) \<Rightarrow> if sec < 60 then Some (int sec * 1000 + ms, z) else None
         | _ \<Rightarrow> None)
      else map_option (Pair 0) (parse_zone r))"

definition parse_time :: "js_string \<Rightarrow> (int \<times> bool) option" where
  "parse_time r =
     (if 6 \<le> length r \<and> r ! 0 = 0x54 \<and> r ! 3 = 0x3A then
        (case (num (take 2 (drop 1 r)), num (take 2 (drop 4 r)), parse_seconds (drop 6 r)) of
           (Some h, Some mi, Some (ms, z)) \<Rightarrow>
             if h < 24 \<and> mi < 60 then Some (MakeTime (int h) (int mi) 0 ms, z) else None
         | _ \<Rightarrow> None)
      else None)"

definition Date_parse :: "int \<Rightarrow> js_string \<Rightarrow> int option" where
  "Date_parse tza s =
     (case parse_date (take 10 s) of
        None \<Rightarrow> None
      | Some day \<Rightarrow>
          if length s = 10 then Some (MakeDate day 0)
          else (case parse_time (drop 10 s) of
                  None \<Rightarrow> None
                | Some (time, z) \<Rightarrow>
                    Some (if z then MakeDate day time else UTC tza (MakeDate day time))))"

subsection \<open>Writing a date: toISOString\<close>

definition dec_digit :: "nat \<Rightarrow> code_unit" where
  "dec_digit d = of_nat (48 + d mod 10)"

definition pad2 :: "nat \<Rightarrow> js_string" where
  "pad2 n = [dec_digit (n div 10), dec_digit n]"

definition pad3 :: "nat \<Rightarrow> js_string" where
  "pad3 n = dec_digit (n div 100) # pad2 n"

definition pad4 :: "nat \<Rightarrow> js_string" where
  "pad4 n = dec_digit (n div 1000) # pad3 n"

definition pad6 :: "nat \<Rightarrow> js_string" where
  "pad6 n = dec_digit (n div 100000) # dec_digit (n div 10000) # pad4 n"

text \<open>Years outside 0 to 9999 are written with a sign and six digits.\<close>

definition iso_year :: "int \<Rightarrow> js_string" where
  "iso_year y =
     (if 0 \<le> y \<and> y \<le> 9999 then pad4 (nat y)
      else if y < 0 then 0x2D # pad6 (nat (- y))
      else 0x2B # pad6 (nat y))"

definition toISOString :: "int \<Rightarrow> js_string" where
  "toISOString t =
     (let tod = TimeWithinDay t
      in iso_year (YearFromTime t) @ js ''-'' @ pad2 (nat (MonthFromTime t + 1)) @ js ''-''
         @ pad2 (nat (DateFromTime t)) @ js ''T''
         @ pad2 (nat (tod div 3600000)) @ js '':'' @ pad2 (nat (tod div 60000 mod 60)) @ js '':''
         @ pad2 (nat (tod div 1000 mod 60)) @ js ''.'' @ pad3 (nat (tod mod 1000)) @ js ''Z'')"

text \<open>\<open>s.split('T')[0]\<close>: the part of \<open>s\<close> before the first \<open>T\<close>.\<close>

definition split_T_0 :: "js_string \<Rightarrow> js_string" where
  "split_T_0 s = takeWhile (\<lambda>c. c \<noteq> 0x54) s"

section \<open>getWeekStart\<close>

text \<open>
  \<open>getDay\<close> and \<open>getDate\<close> read local time and \<open>setDate\<close> writes it;
  \<open>toISOString\<close> writes UTC. On an invalid date \<open>toISOString\<close> throws a RangeError,
  which is the result \<open>None\<close>.
\<close>

definition getWeekStart :: "int \<Rightarrow> js_string \<Rightarrow> js_string option" where
  "getWeekStart tza dateString =
     (case Date_parse tza dateString of
        None \<Rightarrow> None
      | Some date \<Rightarrow>
          (let lt = LocalTime tza date;
               day = WeekDay lt;
               diff = DateFromTime lt - day;
               sunday = UTC tza (MakeDate (MakeDay (YearFromTime lt) (MonthFromTime lt) diff)
                                   (TimeWithinDay lt))
           in Some (split_T_0 (toISOString sunday))))"

section \<open>The proposition list and its views\<close>

text \<open>
  The objects of the program; a proposition is a \<open>proposicao\<close>. \<open>codigo\<close> and
  \<open>titulo\<close> are fields of a proposition and of the view entries made from it.
  Values of the API that the program only passes on are of the type \<open>json\<close>. A field
  that may be absent, \<open>null\<close> or empty is an option. The effect that computes the
  views runs whenever the list changes; its parts are the functions below, in the
  order of the source (the status view, which no property here is about, is left
  out).
\<close>

typedecl json

record coded =
  codigo :: js_string
  titulo :: js_string

record andamento =
  dataHora :: js_string
  descricaoTipo :: "js_string option"
  descricaoSituacao :: "js_string option"

record proposicao = coded +
  andamentos :: "andamento list"
  autores :: "json list"
  statusProposicao :: "json option"

record latest_entry = coded +
  data :: js_string
  descricao :: js_string

record change_entry = coded +
  numChanges :: nat

text \<open>\<open>a || d\<close> on a string that may be absent: \<open>undefined\<close>, \<open>null\<close> and \<open>''\<close> are falsy.\<close>

fun or_else :: "js_string option \<Rightarrow> js_string \<Rightarrow> js_string" where
  "or_else None d = d"
| "or_else (Some a) d = (if a = [] then d else a)"

subsection \<open>Array.prototype.sort\<close>

text \<open>
  \<open>sort(comparefn)\<close> is stable, and a comparator result of NaN (here \<open>None\<close>) counts
  as 0. For a consistent comparator this determines the result, which the insertion
  sort below computes; for an inconsistent one the order is implementation-defined.
\<close>

definition sort_compare :: "('a \<Rightarrow> 'a \<Rightarrow> int option) \<Rightarrow> 'a \<Rightarrow> 'a \<Rightarrow> int" where
  "sort_compare comparefn x y = (case comparefn x y of None \<Rightarrow> 0 | Some v \<Rightarrow> v)"

fun js_insert :: "('a \<Rightarrow> 'a \<Rightarrow> int option) \<Rightarrow> 'a \<Rightarrow> 'a list \<Rightarrow> 'a list" where
  "js_insert comparefn x [] = [x]"
| "js_insert comparefn x (y # ys) =
     (if sort_compare comparefn x y \<le> 0 then x # y # ys else y # js_insert comparefn x ys)"

definition js_sort :: "('a \<Rightarrow> 'a \<Rightarrow> int option) \<Rightarrow> 'a list \<Rightarrow> 'a list" where
  "js_sort comparefn xs = foldr (js_insert comparefn) xs []"

subsection \<open>The latest movements\<close>

definition movement_entry :: "proposicao \<Rightarrow> andamento \<Rightarrow> latest_entry" where
  "movement_entry prop mov =
     \<lparr>codigo = codigo prop, titulo = titulo prop,
      data = split_T_0 (dataHora mov),
      descricao = or_else (descricaoTipo mov) (or_else (descricaoSituacao mov)
        (js ''Andamento n'' @ [0xE3] @ js ''o especificado''))\<rparr>"

definition allMovements :: "proposicao list \<Rightarrow> latest_entry list" where
  "allMovements selectedPropositions =
     concat (map (\<lambda>prop. map (movement_entry prop) (andamentos prop)) selectedPropositions)"

text \<open>\<open>new Date(b.data) - new Date(a.data)\<close>; NaN when one of the dates is invalid.\<close>

definition date_difference :: "int \<Rightarrow> latest_entry \<Rightarrow> latest_entry \<Rightarrow> int option" where
  "date_difference tza a b =
     (case (Date_parse tza (data b), Date_parse tza (data a)) of
        (Some tb, Some ta) \<Rightarrow> Some (tb - ta)
      | _ \<Rightarrow> None)"

definition latestMovements :: "int \<Rightarrow> proposicao list \<Rightarrow> latest_entry list" where
  "latestMovements tza selectedPropositions =
     (if selectedPropositions = [] then []
      else take 10 (js_sort (date_difference tza) (allMovements selectedPropositions)))"

text \<open>The time value that the comparison reads off an entry (0 stands in for NaN).\<close>

definition date_value :: "int \<Rightarrow> latest_entry \<Rightarrow> int" where
  "date_value tza e = (case Date_parse tza (data e) of None \<Rightarrow> 0 | Some t \<Rightarrow> t)"

subsection \<open>The propositions by number of changes\<close>

definition change_count :: "proposicao \<Rightarrow> change_entry" where
  "change_count prop =
     \<lparr>codigo = codigo prop, titulo = titulo prop, numChanges = length (andamentos prop)\<rparr>"

definition propositionsByChanges :: "proposicao list \<Rightarrow> change_entry list" where
  "propositionsByChanges selectedPropositions =
     (if selectedPropositions = [] then []
      else js_sort (\<lambda>a b. Some (int (numChanges b) - int (numChanges a)))
             (map change_count selectedPropositions))"

subsection \<open>The weekly movement chart\<close>

text \<open>
  \<open>weeklyCounts\<close> is an object of objects of numbers, \<open>allDates\<close> a \<open>Set\<close>, which
  keeps its elements in insertion order. A data point is an object with the key
  \<open>name\<close> and one key for each proposition code. Keys inherited from
  \<open>Object.prototype\<close> are not modelled: no week start and no code that
  \<open>parsePropositionCode\<close> accepts is one of them.
\<close>

datatype js_value = Str js_string | Num nat

type_synonym counts = "js_string \<rightharpoonup> (js_string \<rightharpoonup> nat)"

record weekly_state =
  weeklyCounts :: counts
  allDates :: "js_string list"

definition set_add :: "js_string list \<Rightarrow> js_string \<Rightarrow> js_string list" where
  "set_add ds d = (if d \<in> set ds then ds else ds @ [d])"

text \<open>
  The body of the inner \<open>forEach\<close>, after \<open>getWeekStart\<close>: the two initialisations
  (\<open>!x\<close> holds for \<open>undefined\<close> and for 0) and the increment.
\<close>

definition count_movement :: "weekly_state \<Rightarrow> js_string \<Rightarrow> js_string \<Rightarrow> weekly_state" where
  "count_movement st weekStart code =
     (let inner = (case weeklyCounts st weekStart of None \<Rightarrow> Map.empty | Some i \<Rightarrow> i);
          n = (case inner code of None \<Rightarrow> 0 | Some n \<Rightarrow> if n = 0 then 0 else n)
      in \<lparr>weeklyCounts = (weeklyCounts st)(weekStart \<mapsto> inner(code \<mapsto> n + 1)),
          allDates = set_add (allDates st) weekStart\<rparr>)"

text \<open>The two \<open>forEach\<close> loops. An exception of \<open>getWeekStart\<close> ends them: \<open>None\<close>.\<close>

fun count_andamentos ::
  "int \<Rightarrow> js_string \<Rightarrow> weekly_state \<Rightarrow> andamento list \<Rightarrow> weekly_state option" where
  "count_andamentos tza code st [] = Some st"
| "count_andamentos tza code st (mov # movs) =
     (case getWeekStart tza (dataHora mov) of
        None \<Rightarrow> None
      | Some weekStart \<Rightarrow> count_andamentos tza code (count_movement st weekStart code) movs)"

fun count_propositions ::
  "int \<Rightarrow> weekly_state \<Rightarrow> proposicao list \<Rightarrow> weekly_state option" where
  "count_propositions tza st [] = Some st"
| "count_propositions tza st (prop # props) =
     (case count_andamentos tza (codigo prop) st (andamentos prop) of
        None \<Rightarrow> None
      | Some st' \<Rightarrow> count_propositions tza st' props)"

text \<open>\<open>weeklyCounts[date]?.[prop.codigo] || 0\<close>\<close>

definition count_or_0 :: "counts \<Rightarrow> js_string \<Rightarrow> js_string \<Rightarrow> nat" where
  "count_or_0 wc date code =
     (case wc date of
        None \<Rightarrow> 0
      | Some inner \<Rightarrow> (case inner code of None \<Rightarrow> 0 | Some n \<Rightarrow> n))"

definition dataPoint :: "counts \<Rightarrow> proposicao list \<Rightarrow> js_string \<Rightarrow> (js_string \<rightharpoonup> js_value)" where
  "dataPoint wc selectedPropositions date =
     fold (\<lambda>prop dp. dp(codigo prop \<mapsto> Num (count_or_0 wc date (codigo prop))))
       selectedPropositions [js ''name'' \<mapsto> Str date]"

text \<open>
  \<open>Array.from(allDates).sort()\<close> sorts strings by their code units, which is the
  lexicographic order of \<open>js_string\<close>.
\<close>

definition weeklyMovementData ::
  "int \<Rightarrow> proposicao list \<Rightarrow> (js_string \<rightharpoonup> js_value) list option" where
  "weeklyMovementData tza selectedPropositions =
     (if selectedPropositions = [] then Some []
      else (case count_propositions tza \<lparr>weeklyCounts = Map.empty, allDates = []\<rparr>
                   selectedPropositions of
              None \<Rightarrow> None
            | Some st \<Rightarrow>
                Some (map (dataPoint (weeklyCounts st) selectedPropositions) (sort (allDates st)))))"

subsection \<open>The specification's wording of the weekly series\<close>

text \<open>
  The week starts observed across all propositions' movements; the number of one
  proposition's movements in a week; and the number of movements in a week of all
  propositions of the list that carry a given code.
\<close>

definition week_starts :: "int \<Rightarrow> proposicao list \<Rightarrow> js_string list" where
  "week_starts tza ps =
     concat (map (\<lambda>p. List.map_filter (\<lambda>mov. getWeekStart tza (dataHora mov)) (andamentos p)) ps)"

definition own_week_count :: "int \<Rightarrow> proposicao \<Rightarrow> js_string \<Rightarrow> nat" where
  "own_week_count tza p d =
     length (filter (\<lambda>mov. getWeekStart tza (dataHora mov) = Some d) (andamentos p))"

definition code_week_count :: "int \<Rightarrow> proposicao list \<Rightarrow> js_string \<Rightarrow> js_string \<Rightarrow> nat" where
  "code_week_count tza ps code d =
     sum_list (map (\<lambda>p. own_week_count tza p d) (filter (\<lambda>p. codigo p = code) ps))"

text \<open>
  The data point of the week \<open>d\<close>: a count under every code of the list, the date
  under \<open>name\<close>, and no other key.
\<close>

definition expected_point :: "int \<Rightarrow> proposicao list \<Rightarrow> js_string \<Rightarrow> (js_string \<rightharpoonup> js_value)" where
  "expected_point tza ps d =
     (\<lambda>k. if k \<in> codigo ` set ps then Some (Num (code_week_count tza ps k d))
          else if k = js ''name'' then Some (Str d) else None)"

text \<open>Reading a chart: its number of points, and the value of a key at a point.\<close>

definition chart_length :: "(js_string \<rightharpoonup> js_value) list option \<Rightarrow> nat option" where
  "chart_length chart = map_option length chart"

definition point_value ::
  "(js_string \<rightharpoonup> js_value) list option \<Rightarrow> nat \<Rightarrow> js_string \<Rightarrow> js_value option" where
  "point_value chart i k =
     (case chart of
        None \<Rightarrow> None
      | Some points \<Rightarrow> if i < length points then (points ! i) k else None)"

section \<open>handleProcessPropositions\<close>

subsection \<open>The API\<close>

text \<open>
  The three fetch functions are parameters: what they return depends on the network
  and on the API. Each returns a value or throws an \<open>Error\<close>, whose message is the
  left summand. \<open>fetchPropositionId\<close> returns \<open>null\<close> when the API reports no match.
\<close>

record dados =
  ementa :: "js_string option"
  nome :: "js_string option"
  dados_autores :: "json list option"
  dados_statusProposicao :: "json option"

record api =
  fetchPropositionId :: "js_string \<Rightarrow> nat \<Rightarrow> nat \<Rightarrow> js_string + nat option"
  fetchPropositionDetails :: "nat \<Rightarrow> js_string + dados option"
  fetchPropositionMovements :: "nat \<Rightarrow> js_string + andamento list"

text \<open>The requests that the action issues are recorded in the order of the calls.\<close>

datatype request =
  IdRequest js_string nat nat
| DetailsRequest nat
| MovementsRequest nat

subsection \<open>The loop over the codes\<close>

record loop_state =
  fetchedPropositions :: "proposicao list"
  notFoundCodes :: "js_string list"
  requests :: "request list"

definition issue :: "loop_state \<Rightarrow> request \<Rightarrow> loop_state" where
  "issue st r = st\<lparr>requests := requests st @ [r]\<rparr>"

text \<open>\<open>notFoundCodes.push(code)\<close>, and the \<open>catch\<close> block.\<close>

definition push_not_found :: "loop_state \<Rightarrow> js_string \<Rightarrow> loop_state" where
  "push_not_found st code = st\<lparr>notFoundCodes := notFoundCodes st @ [code]\<rparr>"

definition with_error :: "js_string \<Rightarrow> js_string \<Rightarrow> js_string" where
  "with_error code message = code @ js '' (Erro: '' @ message @ js '')''"

definition catch_error :: "loop_state \<Rightarrow> js_string \<Rightarrow> js_string \<Rightarrow> loop_state" where
  "catch_error st code message = push_not_found st (with_error code message)"

definition make_proposicao :: "js_string \<Rightarrow> dados \<Rightarrow> andamento list \<Rightarrow> proposicao" where
  "make_proposicao code details movements =
     \<lparr>codigo = code,
      titulo = or_else (ementa details) (or_else (nome details)
        (js ''T'' @ [0xED] @ js ''tulo n'' @ [0xE3] @ js ''o dispon'' @ [0xED] @ js ''vel'')),
      andamentos = movements,
      autores = (case dados_autores details of None \<Rightarrow> [] | Some a \<Rightarrow> a),
      statusProposicao = dados_statusProposicao details\<rparr>"

text \<open>
  The body of the \<open>for\<close> loop. \<open>if (propositionId)\<close> is false for \<open>null\<close> and for 0.
\<close>

definition process_code :: "api \<Rightarrow> loop_state \<Rightarrow> js_string \<Rightarrow> loop_state" where
  "process_code a st code =
     (case parsePropositionCode code of
        None \<Rightarrow> push_not_found st code
      | Some parsedCode \<Rightarrow>
          (let st1 = issue st (IdRequest (siglaTipo parsedCode) (numero parsedCode) (ano parsedCode))
           in case fetchPropositionId a (siglaTipo parsedCode) (numero parsedCode) (ano parsedCode) of
                Inl message \<Rightarrow> catch_error st1 code message
              | Inr None \<Rightarrow> push_not_found st1 code
              | Inr (Some propositionId) \<Rightarrow>
                  if propositionId = 0 then push_not_found st1 code
                  else
                    (let st2 = issue st1 (DetailsRequest propositionId)
                     in case fetchPropositionDetails a propositionId of
                          Inl message \<Rightarrow> catch_error st2 code message
                        | Inr details \<Rightarrow>
                            (let st3 = issue st2 (MovementsRequest propositionId)
                             in case fetchPropositionMovements a propositionId of
                                  Inl message \<Rightarrow> catch_error st3 code message
                                | Inr movements \<Rightarrow>
                                    (case details of
                                       Some d \<Rightarrow>
                                         st3\<lparr>fetchedPropositions := fetchedPropositions st3
                                               @ [make_proposicao code d movements]\<rparr>
                                     | None \<Rightarrow> push_not_found st3 code)))))"

definition process_codes :: "api \<Rightarrow> js_string list \<Rightarrow> loop_state" where
  "process_codes a codes =
     foldl (process_code a) \<lparr>fetchedPropositions = [], notFoundCodes = [], requests = []\<rparr> codes"

subsection \<open>The action\<close>

text \<open>\<open>input.split(',').map(code => code.trim()).filter(code => code !== '')\<close>\<close>

fun split_comma :: "js_string \<Rightarrow> js_string list" where
  "split_comma [] = [[]]"
| "split_comma (c # cs) =
     (if c = 0x2C then [] # split_comma cs
      else (case split_comma cs of [] \<Rightarrow> [[c]] | x # xs \<Rightarrow> (c # x) # xs))"

definition trim :: "js_string \<Rightarrow> js_string" where
  "trim s = rev (dropWhile is_space (rev (dropWhile is_space s)))"

definition input_codes :: "js_string \<Rightarrow> js_string list" where
  "input_codes propositionCodesInput =
     filter (\<lambda>code. code \<noteq> []) (map trim (split_comma propositionCodesInput))"

text \<open>\<open>notFoundCodes.join(', ')\<close> and the three messages.\<close>

fun join_comma :: "js_string list \<Rightarrow> js_string" where
  "join_comma [] = []"
| "join_comma [x] = x"
| "join_comma (x # y # ys) = x @ js '', '' @ join_comma (y # ys)"

definition please_enter_code :: js_string where
  "please_enter_code =
     js ''Por favor, insira pelo menos um c'' @ [0xF3] @ js ''digo de proposi'' @ [0xE7, 0xE3]
     @ js ''o.''"

definition unresolved_message :: "js_string list \<Rightarrow> js_string" where
  "unresolved_message notFound =
     js ''N'' @ [0xE3] @ js ''o foi poss'' @ [0xED]
     @ js ''vel encontrar ou processar as seguintes proposi'' @ [0xE7, 0xF5] @ js ''es: ''
     @ join_comma notFound
     @ js ''. Verifique os c'' @ [0xF3]
     @ js ''digos e tente novamente. Isso pode ser devido a problemas de rede ou dados n''
     @ [0xE3] @ js ''o dispon'' @ [0xED] @ js ''veis na API.''"

definition none_found :: js_string where
  "none_found =
     js ''Nenhuma proposi'' @ [0xE7, 0xE3] @ js ''o encontrada para os c'' @ [0xF3]
     @ js ''digos informados.''"

text \<open>
  The state that the action leaves: the proposition list, the message, the loading
  flag, and the requests it issued.
\<close>

record app_state =
  selectedPropositions :: "proposicao list"
  errorMessage :: js_string
  isLoading :: bool
  network :: "request list"

definition handleProcessPropositions :: "api \<Rightarrow> js_string \<Rightarrow> app_state" where
  "handleProcessPropositions a propositionCodesInput =
     (let codes = input_codes propositionCodesInput
      in if codes = [] then
           \<lparr>selectedPropositions = [], errorMessage = please_enter_code, isLoading = False,
            network = []\<rparr>
         else
           (let st = process_codes a codes
            in \<lparr>selectedPropositions = fetchedPropositions st,
                errorMessage =
                  (if notFoundCodes st \<noteq> [] then unresolved_message (notFoundCodes st)
                   else if fetchedPropositions st = [] then none_found
                   else []),
                isLoading = False,
                network = requests st\<rparr>))"

subsection \<open>The specification's wording of the result of one code\<close>

text \<open>
  ``A \<open>Result<Proposition, Reason>\<close> per code, reduced at the end into (resolved list,
  unresolved list)'': the result of one code, a proposition or the entry of the
  unresolved list, as a function of the code and the API alone.
\<close>

definition code_result :: "api \<Rightarrow> js_string \<Rightarrow> js_string + proposicao" where
  "code_result a code =
     (case parsePropositionCode code of
        None \<Rightarrow> Inl code
      | Some pc \<Rightarrow>
          (case fetchPropositionId a (siglaTipo pc) (numero pc) (ano pc) of
             Inl message \<Rightarrow> Inl (with_error code message)
           | Inr None \<Rightarrow> Inl code
           | Inr (Some i) \<Rightarrow>
               if i = 0 then Inl code
               else (case (fetchPropositionDetails a i, fetchPropositionMovements a i) of
                       (Inl message, _) \<Rightarrow> Inl (with_error code message)
                     | (Inr _, Inl message) \<Rightarrow> Inl (with_error code message)
                     | (Inr None, Inr _) \<Rightarrow> Inl code
                     | (Inr (Some d), Inr movements) \<Rightarrow> Inr (make_proposicao code d movements))))"



subsection \<open>Sample propositions\<close>

text \<open>Concrete propositions on which the theorems below are instantiated.\<close>

definition sample_andamento :: "string \<Rightarrow> andamento" where
  "sample_andamento d =
     \<lparr>dataHora = js d, descricaoTipo = Some (js ''Despacho''), descricaoSituacao = None\<rparr>"

definition sample_proposicao :: "string \<Rightarrow> string list \<Rightarrow> proposicao" where
  "sample_proposicao c ds =
     \<lparr>codigo = js c, titulo = js ''Ementa'', andamentos = map sample_andamento ds,
      autores = [], statusProposicao = None\<rparr>"

text \<open>
  An API that knows PL 1/2023, MP 3/2024 and PLP 5/2020, and fails on the movements
  of the last, for the instances below.
\<close>

definition sample_dados :: dados where
  "sample_dados =
     \<lparr>ementa = Some (js ''Ementa''), nome = None, dados_autores = None,
      dados_statusProposicao = None\<rparr>"

definition sample_api :: api where
  "sample_api =
     \<lparr>fetchPropositionId = (\<lambda>t n y.
        if t = js ''PL'' \<and> n = 1 \<and> y = 2023 then Inr (Some 11)
        else if t = js ''MP'' \<and> n = 3 \<and> y = 2024 then Inr (Some 33)
        else if t = js ''PLP'' \<and> n = 5 \<and> y = 2020 then Inr (Some 55)
        else Inr None),
      fetchPropositionDetails = (\<lambda>i. Inr (Some sample_dados)),
      fetchPropositionMovements = (\<lambda>i.
        if i = 11 then Inr [sample_andamento ''2024-01-10T14:30'']
        else if i = 33 then Inr []
        else Inl (js ''Erro ao buscar andamentos''))\<rparr>"

section \<open>Properties of getPropositionColor\<close>

lemma ToInt32_sint: "ToInt32 x = sint (word_of_int x :: 32 word)"
  by (simp add: ToInt32_def int_word_sint)

lemma ToInt32_range: "- (2 ^ 31) \<le> ToInt32 x \<and> ToInt32 x < 2 ^ 31"
  by (simp add: ToInt32_def)





text \<open>
  The accumulator is not truncated by the subtraction, but it grows by less than
  \<open>2 ^ 32\<close> in each round, so for codes of up to \<open>2 ^ 21\<close> code units it stays in the
  range where a double holds every integer.
\<close>

lemma hash_loop_magnitude: "\<bar>hash_loop h cs\<bar> \<le> \<bar>h\<bar> + 2 ^ 32 * int (length cs)"
proof (induction cs arbitrary: h)
  case Nil
  show ?case by simp
next
  case (Cons c cs)
  have c0: "0 \<le> uint c"
    by simp
  have c1: "uint c < 65536"
    using uint_bounded [of c] by simp
  have s0: "- 2147483648 \<le> js_shl h 5" and s1: "js_shl h 5 < 2147483648"
    using ToInt32_range [of "push_bit (5 mod 32) (ToInt32 h)"] by (simp_all add: js_shl_def)
  have "\<bar>uint c + (js_shl h 5 - h)\<bar> \<le> \<bar>h\<bar> + 4294967296"
    using c0 c1 s0 s1 by linarith
  then have "\<bar>uint c + (js_shl h 5 - h)\<bar> \<le> \<bar>h\<bar> + 2 ^ 32"
    by simp
  moreover have "\<bar>hash_loop (uint c + (js_shl h 5 - h)) cs\<bar>
      \<le> \<bar>uint c + (js_shl h 5 - h)\<bar> + 2 ^ 32 * int (length cs)"
    by (rule Cons.IH)
  ultimately show ?case by simp
qed

lemma and_255_take_bit: "(x::int) AND 255 = take_bit 8 x"
  by (simp add: take_bit_eq_mask mask_eq_exp_minus_1)

lemma take_bit_8_ToInt32: "take_bit 8 (ToInt32 y) = take_bit 8 y"
proof -
  have "take_bit 8 (ToInt32 y) = take_bit 8 (take_bit 32 (ToInt32 y))"
    by simp
  also have "take_bit 32 (ToInt32 y) = uint (word_of_int y :: 32 word)"
    by (simp add: ToInt32_sint uint_sint)
  also have "\<dots> = take_bit 32 y"
    by (simp add: uint_word_of_int_eq)
  finally show ?thesis by simp
qed

lemma color_value_any: "color_value h i = take_bit 8 (drop_bit (i * 8 mod 32) (ToInt32 h))"
proof -
  have "ToInt32 255 = 255" by (simp add: ToInt32_def)
  then show ?thesis
    by (simp add: color_value_def js_band_def js_sar_def and_255_take_bit take_bit_8_ToInt32)
qed

lemma color_value_range: "0 \<le> color_value h i \<and> color_value h i < 256"
proof -
  have "color_value h i < 2 ^ 8"
    unfolding color_value_any by (rule take_bit_int_less_exp)
  then show ?thesis by (simp add: color_value_any)
qed



lemma two_hex_digits: "v < 256 \<Longrightarrow> substr_last 2 (js ''00'' @ toString16 v) = hex2 v"
  by (simp add: toString16.simps [of v] toString16.simps [of "v div 16"]
      substr_last_def hex2_def hex_digit_def)

lemma color_part_hex2: "color_part h i = hex2 (nat (color_value h i))"
proof -
  have "nat (color_value h i) < 256"
    using color_value_range [of h i] by linarith
  then show ?thesis
    unfolding color_part_def by (rule two_hex_digits)
qed



text \<open>
  C10. On the empty string the hash accumulator stays 0 and the colour is
  \<open>#000000\<close>; for every string and every round each extracted byte lies in
  \<open>[0, 255]\<close> and is written as exactly two hex digits, so the function returns a
  7-character string on every input.
\<close>

theorem getPropositionColor_empty_and_total:
  "hash_loop 0 [] = 0 \<and> getPropositionColor [] = js ''#000000''
   \<and> 0 \<le> color_value (hash_loop 0 code) i \<and> color_value (hash_loop 0 code) i \<le> 255
   \<and> length (color_part (hash_loop 0 code) i) = 2
   \<and> length (getPropositionColor code) = 7"
proof -
  have "getPropositionColor [] = js ''#000000''"
    by (simp add: getPropositionColor_def color_part_def color_value_def js_band_def
        js_sar_def ToInt32_def substr_last_def hex_digit_def toString16.simps [of 0])
  moreover have "length (color_part h j) = 2" for h j
    by (simp add: color_part_hex2 hex2_def)
  ultimately show ?thesis
    using color_value_range [of "hash_loop 0 code" i]
    by (simp add: getPropositionColor_def Let_def)
qed

section \<open>Properties of parsePropositionCode\<close>














lemma greedy_skip_at_other:
  "\<not> p c \<Longrightarrow> greedy p 0 (c # r) k = k [] (c # r)"
  by (simp add: greedy_def)








lemma takeWhile_run:
  "list_all p xs \<Longrightarrow> ys = [] \<or> \<not> p (hd ys) \<Longrightarrow> takeWhile p (xs @ ys) = xs"
  by (cases ys) (auto simp: list_all_iff takeWhile_append2)




















lemmas parse_eval = parsePropositionCode_def match_here_def year_cont_def greedy_def slash_year_def
  is_letter_def is_digit_def is_space_def toUpperCase_def parseInt10_def





section \<open>Properties of the ranking by changes\<close>

lemma js_insert_insort_key:
  "(\<And>y. y \<in> set ys \<Longrightarrow> sort_compare cmp x y \<le> 0 \<longleftrightarrow> f x \<le> f y)
    \<Longrightarrow> js_insert cmp x ys = insort_key f x ys"
  by (induction ys) simp_all

lemma js_sort_sort_key:
  fixes f :: "'a \<Rightarrow> 'k::linorder"
  assumes "\<And>x y. x \<in> set xs \<Longrightarrow> y \<in> set xs \<Longrightarrow> sort_compare cmp x y \<le> 0 \<longleftrightarrow> f x \<le> f y"
  shows "js_sort cmp xs = sort_key f xs"
  using assms
proof (induction xs)
  case Nil
  show ?case by (simp add: js_sort_def)
next
  case (Cons x xs)
  have IH: "js_sort cmp xs = sort_key f xs"
    using Cons.prems by (intro Cons.IH) simp_all
  have "js_insert cmp x (sort_key f xs) = insort_key f x (sort_key f xs)"
    using Cons.prems by (intro js_insert_insort_key) simp_all
  then show ?case
    using IH by (simp add: js_sort_def sort_key_def)
qed

lemma propositionsByChanges_sort_key:
  "propositionsByChanges ps = sort_key (\<lambda>e. - int (numChanges e)) (map change_count ps)"
proof -
  have "js_sort (\<lambda>a b. Some (int (numChanges b) - int (numChanges a))) (map change_count ps)
      = sort_key (\<lambda>e. - int (numChanges e)) (map change_count ps)"
    by (rule js_sort_sort_key) (simp add: sort_compare_def)
  then show ?thesis
    by (simp add: propositionsByChanges_def)
qed

lemma sort_four:
  fixes f :: "'a \<Rightarrow> int"
  shows "f a = -3 \<Longrightarrow> f b = -7 \<Longrightarrow> f c = -7 \<Longrightarrow> f d = -1 \<Longrightarrow> sort_key f [a, b, c, d] = [b, c, a, d]"
  by (simp add: sort_key_def)

text \<open>
  C5. The ranking by changes has one entry per proposition with its number of
  movements, is sorted descending by that number, and keeps entries with equal numbers
  in the order of the list (a stable sort); for numbers 3, 7, 7, 1 the result is the
  second, the third, the first and the fourth proposition.
\<close>

theorem propositionsByChanges_stable_descending:
  "mset (propositionsByChanges ps) = mset (map change_count ps)
   \<and> sorted_wrt (\<lambda>a b. numChanges b \<le> numChanges a) (propositionsByChanges ps)
   \<and> filter (\<lambda>e. numChanges e = k) (propositionsByChanges ps)
       = filter (\<lambda>e. numChanges e = k) (map change_count ps)
   \<and> (map (\<lambda>p. length (andamentos p)) [p0, p1, p2, p3] = [3, 7, 7, 1] \<longrightarrow>
        propositionsByChanges [p0, p1, p2, p3]
          = [change_count p1, change_count p2, change_count p0, change_count p3])"
proof -
  let ?key = "\<lambda>e. - int (numChanges e)"
  let ?E = "map change_count ps"
  have 1: "mset (propositionsByChanges ps) = mset ?E"
    by (simp add: propositionsByChanges_sort_key)
  have "sorted (map ?key (sort_key ?key ?E))"
    by (rule sorted_sort_key)
  then have 2: "sorted_wrt (\<lambda>a b. numChanges b \<le> numChanges a) (propositionsByChanges ps)"
    by (simp add: sorted_map propositionsByChanges_sort_key)
  have "filter (\<lambda>e. ?key e = - int k) (sort_key ?key ?E) = filter (\<lambda>e. ?key e = - int k) ?E"
    by (rule sort_key_stable)
  then have 3: "filter (\<lambda>e. numChanges e = k) (propositionsByChanges ps)
       = filter (\<lambda>e. numChanges e = k) ?E"
    by (simp add: propositionsByChanges_sort_key)
  have 4: "propositionsByChanges [p0, p1, p2, p3]
          = [change_count p1, change_count p2, change_count p0, change_count p3]"
    if "map (\<lambda>p. length (andamentos p)) [p0, p1, p2, p3] = [3, 7, 7, 1]"
  proof -
    from that have "?key (change_count p0) = -3" "?key (change_count p1) = -7"
      "?key (change_count p2) = -7" "?key (change_count p3) = -1"
      by (simp_all add: change_count_def)
    then have "sort_key ?key [change_count p0, change_count p1, change_count p2, change_count p3]
        = [change_count p1, change_count p2, change_count p0, change_count p3]"
      by (rule sort_four)
    then show ?thesis
      by (simp add: propositionsByChanges_sort_key)
  qed
  from 1 2 3 4 show ?thesis by blast
qed

text \<open>C5 at four propositions with 3, 7, 7 and 1 movements.\<close>

theorem propositionsByChanges_stable_descending_witness:
  "map (\<lambda>p. length (andamentos p))
     [sample_proposicao ''PL 1/2023'' (replicate 3 ''2024-01-10T10:00''),
      sample_proposicao ''PEC 2/2022'' (replicate 7 ''2024-01-10T10:00''),
      sample_proposicao ''MP 3/2024'' (replicate 7 ''2024-01-10T10:00''),
      sample_proposicao ''PL 4/2021'' (replicate 1 ''2024-01-10T10:00'')] = [3, 7, 7, 1]
   \<and> map (\<lambda>e. (codigo e, numChanges e)) (propositionsByChanges
     [sample_proposicao ''PL 1/2023'' (replicate 3 ''2024-01-10T10:00''),
      sample_proposicao ''PEC 2/2022'' (replicate 7 ''2024-01-10T10:00''),
      sample_proposicao ''MP 3/2024'' (replicate 7 ''2024-01-10T10:00''),
      sample_proposicao ''PL 4/2021'' (replicate 1 ''2024-01-10T10:00'')])
     = [(js ''PEC 2/2022'', 7), (js ''MP 3/2024'', 7), (js ''PL 1/2023'', 3), (js ''PL 4/2021'', 1)]"
proof -
  let ?p0 = "sample_proposicao ''PL 1/2023'' (replicate 3 ''2024-01-10T10:00'')"
  let ?p1 = "sample_proposicao ''PEC 2/2022'' (replicate 7 ''2024-01-10T10:00'')"
  let ?p2 = "sample_proposicao ''MP 3/2024'' (replicate 7 ''2024-01-10T10:00'')"
  let ?p3 = "sample_proposicao ''PL 4/2021'' (replicate 1 ''2024-01-10T10:00'')"
  have h: "map (\<lambda>p. length (andamentos p)) [?p0, ?p1, ?p2, ?p3] = [3, 7, 7, 1]"
    by (simp add: sample_proposicao_def)
  have "propositionsByChanges [?p0, ?p1, ?p2, ?p3]
      = [change_count ?p1, change_count ?p2, change_count ?p0, change_count ?p3]"
    using propositionsByChanges_stable_descending [of "[?p0, ?p1, ?p2, ?p3]" 7 ?p0 ?p1 ?p2 ?p3] h
    by (simp only:)
  then have "map (\<lambda>e. (codigo e, numChanges e)) (propositionsByChanges [?p0, ?p1, ?p2, ?p3])
      = [(js ''PEC 2/2022'', 7), (js ''MP 3/2024'', 7), (js ''PL 1/2023'', 3), (js ''PL 4/2021'', 1)]"
    by (simp add: change_count_def sample_proposicao_def)
  with h show ?thesis by (simp only:)
qed

section \<open>Properties of getWeekStart\<close>

text \<open>
  The calendar functions at known dates: day 0 is 1970-01-01, a Thursday; 2024-01-07
  is day 19729, a Sunday; 2000-02-29 exists and converts back.
\<close>

lemma calendar_anchors:
  "days_from_civil 1970 1 1 = 0 \<and> WeekDay 0 = 4
   \<and> days_from_civil 2024 1 7 = 19729 \<and> civil_from_days 19729 = (2024, 1, 7)
   \<and> WeekDay (MakeDate 19729 0) = 0
   \<and> civil_from_days (days_from_civil 2000 2 29) = (2000, 2, 29)
   \<and> civil_from_days (days_from_civil 2023 12 31 + 1) = (2024, 1, 1)"
  by code_simp

text \<open>
  On a host at UTC the week start of the three dates of the specification is the
  Sunday on or before them.
\<close>

lemma getWeekStart_at_utc:
  "getWeekStart 0 (js ''2024-01-07T12:00'') = Some (js ''2024-01-07'')
   \<and> getWeekStart 0 (js ''2024-01-10T12:00'') = Some (js ''2024-01-07'')
   \<and> getWeekStart 0 (js ''2024-01-06T12:00'') = Some (js ''2023-12-31'')"
  by code_simp

text \<open>
  C2. The week start is meant to be the Sunday on or before the movement's date.
  The function finds that Sunday in local time and writes it in UTC: on a host three
  hours west of UTC, as in Brasilia, a movement of Sunday 2024-01-07 at 22:00 gets the
  week start 2024-01-08, a Monday.
\<close>

theorem getWeekStart_west_of_utc:
  "getWeekStart (- 10800000) (js ''2024-01-07T22:00'') = Some (js ''2024-01-08'')
   \<and> WeekDay (MakeDate (days_from_civil 2024 1 8) 0) = 1"
  by code_simp

section \<open>Properties of the latest movements\<close>

lemma mset_js_insert: "mset (js_insert cmp x ys) = add_mset x (mset ys)"
  by (induction ys) simp_all

lemma mset_js_sort: "mset (js_sort cmp xs) = mset xs"
  by (induction xs) (simp_all add: js_sort_def mset_js_insert)

lemma length_js_sort: "length (js_sort cmp xs) = length xs"
  using mset_js_sort [of cmp xs] by (metis size_mset)

lemma num_SomeD: "num s = Some n \<Longrightarrow> list_all is_digit s"
  by (simp add: num_def split: if_splits)

lemma digit_not_T: "is_digit c \<Longrightarrow> c \<noteq> 0x54"
  by (auto simp: is_digit_def word_le_nat_alt)

lemma parse_date_shape:
  assumes "parse_date d = Some day"
  shows "length d = 10 \<and> list_all (\<lambda>c. c \<noteq> 0x54) d"
proof -
  from assms have len: "length d = 10" and d4: "d ! 4 = 0x2D" and d7: "d ! 7 = 0x2D"
    by (simp_all add: parse_date_def split: if_splits)
  from assms len d4 d7 obtain y m dd where
    "num (take 4 d) = Some y" "num (take 2 (drop 5 d)) = Some m" "num (drop 8 d) = Some dd"
    by (auto simp: parse_date_def split: option.splits)
  then have digs: "list_all is_digit (take 4 d)" "list_all is_digit (take 2 (drop 5 d))"
    "list_all is_digit (drop 8 d)"
    by (simp_all add: num_SomeD)
  from len obtain a0 a1 a2 a3 a4 a5 a6 a7 a8 a9 where d: "d = [a0, a1, a2, a3, a4, a5, a6, a7, a8, a9]"
    by (auto simp: numeral_eq_Suc length_Suc_conv)
  show ?thesis
    using digs d4 d7 digit_not_T unfolding d by auto
qed

lemma Date_parse_shape:
  assumes "Date_parse tza s = Some t"
  shows "split_T_0 s = take 10 s \<and> length (take 10 s) = 10 \<and> parse_date (split_T_0 s) \<noteq> None
    \<and> Date_parse tza (split_T_0 s) \<noteq> None"
proof -
  from assms obtain day where day: "parse_date (take 10 s) = Some day"
    by (auto simp: Date_parse_def split: option.splits)
  from parse_date_shape [OF day] have len: "length (take 10 s) = 10"
    and noT: "list_all (\<lambda>c. c \<noteq> 0x54) (take 10 s)"
    by simp_all
  have rest: "drop 10 s = [] \<or> \<not> (hd (drop 10 s) \<noteq> 0x54)"
  proof (cases "length s = 10")
    case True
    then show ?thesis by simp
  next
    case False
    with assms day obtain tm where "parse_time (drop 10 s) = Some tm"
      by (auto simp: Date_parse_def split: option.splits)
    then have "6 \<le> length (drop 10 s)" "drop 10 s ! 0 = 0x54"
      by (simp_all add: parse_time_def split: if_splits)
    then show ?thesis
      by (cases "drop 10 s") simp_all
  qed
  have "takeWhile (\<lambda>c. c \<noteq> 0x54) (take 10 s @ drop 10 s) = take 10 s"
    using noT rest by (rule takeWhile_run)
  then have eq: "split_T_0 s = take 10 s"
    by (simp add: split_T_0_def)
  moreover have "Date_parse tza (take 10 s) \<noteq> None"
    using day len by (simp add: Date_parse_def)
  ultimately show ?thesis
    using day len by simp
qed

lemma map_data_allMovements:
  "map data (allMovements ps) = map (\<lambda>mov. split_T_0 (dataHora mov)) (concat (map andamentos ps))"
  by (induction ps) (simp_all add: allMovements_def movement_entry_def)

lemma set_allMovements:
  "e \<in> set (allMovements ps) \<Longrightarrow>
    \<exists>p\<in>set ps. \<exists>mov\<in>set (andamentos p). data e = split_T_0 (dataHora mov)"
proof -
  assume "e \<in> set (allMovements ps)"
  then obtain p mov where "p \<in> set ps" "mov \<in> set (andamentos p)" "e = movement_entry p mov"
    by (auto simp: allMovements_def)
  moreover from this have "data e = split_T_0 (dataHora mov)"
    by (simp add: movement_entry_def)
  ultimately show ?thesis by blast
qed

lemma latest_sort_key:
  assumes "\<And>e. e \<in> set xs \<Longrightarrow> Date_parse tza (data e) \<noteq> None"
  shows "js_sort (date_difference tza) xs = sort_key (\<lambda>e. - date_value tza e) xs"
proof (rule js_sort_sort_key)
  fix x y
  assume "x \<in> set xs" and "y \<in> set xs"
  then obtain tx ty where "Date_parse tza (data x) = Some tx" "Date_parse tza (data y) = Some ty"
    using assms by fastforce
  then show "sort_compare (date_difference tza) x y \<le> 0 \<longleftrightarrow> - date_value tza x \<le> - date_value tza y"
    by (simp add: sort_compare_def date_difference_def date_value_def)
qed


text \<open>
  C4. The latest movements have at most 10 entries, also when the propositions have
  more movements (they are 10 then). Every entry is a movement of the list whose
  \<open>data\<close> is the text of its timestamp before the \<open>T\<close>, which for an ISO-8601
  timestamp is its date \<open>YYYY-MM-DD\<close> without the time of day. When the timestamps
  are ISO-8601, as the data model has them, the entries are sorted descending by
  that date.
\<close>

theorem latestMovements_ten_newest_first:
  "length (latestMovements tza ps) = min 10 (length (allMovements ps))
   \<and> mset (latestMovements tza ps) \<subseteq># mset (allMovements ps)
   \<and> map data (allMovements ps)
       = map (\<lambda>mov. split_T_0 (dataHora mov)) (concat (map andamentos ps))
   \<and> (Date_parse tza s \<noteq> None \<longrightarrow>
        split_T_0 s = take 10 s \<and> length (take 10 s) = 10 \<and> parse_date (split_T_0 s) \<noteq> None)
   \<and> ((\<forall>p\<in>set ps. \<forall>mov\<in>set (andamentos p). Date_parse tza (dataHora mov) \<noteq> None) \<longrightarrow>
        sorted_wrt (\<lambda>a b. date_value tza b \<le> date_value tza a) (latestMovements tza ps))"
proof -
  have empty: "allMovements [] = []"
    by (simp add: allMovements_def)
  have eq: "latestMovements tza ps = take 10 (js_sort (date_difference tza) (allMovements ps))"
    by (simp add: latestMovements_def empty js_sort_def)
  have 1: "length (latestMovements tza ps) = min 10 (length (allMovements ps))"
    by (simp add: eq length_js_sort min.commute)
  have "mset (take 10 (js_sort (date_difference tza) (allMovements ps)))
      \<subseteq># mset (js_sort (date_difference tza) (allMovements ps))"
    by (metis append_take_drop_id mset_append mset_subset_eq_add_left)
  then have 2: "mset (latestMovements tza ps) \<subseteq># mset (allMovements ps)"
    by (simp add: eq mset_js_sort)
  have 3: "split_T_0 s = take 10 s \<and> length (take 10 s) = 10 \<and> parse_date (split_T_0 s) \<noteq> None"
    if "Date_parse tza s \<noteq> None"
    using that Date_parse_shape [of tza s] by auto
  have 4: "sorted_wrt (\<lambda>a b. date_value tza b \<le> date_value tza a) (latestMovements tza ps)"
    if valid: "\<forall>p\<in>set ps. \<forall>mov\<in>set (andamentos p). Date_parse tza (dataHora mov) \<noteq> None"
  proof -
    have v: "Date_parse tza (data e) \<noteq> None" if "e \<in> set (allMovements ps)" for e
    proof -
      from set_allMovements [OF that] obtain p mov where
        pm: "p \<in> set ps" "mov \<in> set (andamentos p)"
        and de: "data e = split_T_0 (dataHora mov)"
        by blast
      from pm valid obtain t where t: "Date_parse tza (dataHora mov) = Some t"
        by fastforce
      have "Date_parse tza (split_T_0 (dataHora mov)) \<noteq> None"
        using Date_parse_shape [OF t] by blast
      then show ?thesis
        unfolding de .
    qed
    let ?key = "\<lambda>e. - date_value tza e"
    have "js_sort (date_difference tza) (allMovements ps) = sort_key ?key (allMovements ps)"
      using v by (rule latest_sort_key)
    moreover have "sorted (map ?key (sort_key ?key (allMovements ps)))"
      by (rule sorted_sort_key)
    ultimately have "sorted_wrt (\<lambda>a b. date_value tza b \<le> date_value tza a)
        (js_sort (date_difference tza) (allMovements ps))"
      by (simp add: sorted_map)
    then show ?thesis
      unfolding eq by (rule sorted_wrt_take)
  qed
  from 1 2 3 4 show ?thesis
    using map_data_allMovements [of ps] by blast
qed

text \<open>C4 at two propositions with 12 movements, on a host three hours west of UTC.\<close>

theorem latestMovements_ten_newest_first_witness:
  "list_all (\<lambda>p. list_all (\<lambda>mov. Date_parse (- 10800000) (dataHora mov) \<noteq> None)
        (andamentos p))
     [sample_proposicao ''PL 1/2023''
        [''2024-01-10T14:30'', ''2024-03-05T09:15'', ''2023-12-31T23:59'', ''2024-02-01T08:00'',
         ''2024-01-07T22:00'', ''2024-01-06T10:00''],
      sample_proposicao ''PEC 2/2022''
        [''2024-03-05T18:45'', ''2022-06-01T12:00'', ''2024-01-10T07:00'', ''2024-02-29T16:20'',
         ''2023-11-15T11:11'', ''2024-01-08T00:05'']]
   \<and> length (latestMovements (- 10800000)
     [sample_proposicao ''PL 1/2023''
        [''2024-01-10T14:30'', ''2024-03-05T09:15'', ''2023-12-31T23:59'', ''2024-02-01T08:00'',
         ''2024-01-07T22:00'', ''2024-01-06T10:00''],
      sample_proposicao ''PEC 2/2022''
        [''2024-03-05T18:45'', ''2022-06-01T12:00'', ''2024-01-10T07:00'', ''2024-02-29T16:20'',
         ''2023-11-15T11:11'', ''2024-01-08T00:05'']]) = 10
   \<and> sorted_wrt (\<lambda>a b. date_value (- 10800000) b \<le> date_value (- 10800000) a)
     (latestMovements (- 10800000)
     [sample_proposicao ''PL 1/2023''
        [''2024-01-10T14:30'', ''2024-03-05T09:15'', ''2023-12-31T23:59'', ''2024-02-01T08:00'',
         ''2024-01-07T22:00'', ''2024-01-06T10:00''],
      sample_proposicao ''PEC 2/2022''
        [''2024-03-05T18:45'', ''2022-06-01T12:00'', ''2024-01-10T07:00'', ''2024-02-29T16:20'',
         ''2023-11-15T11:11'', ''2024-01-08T00:05'']])
   \<and> split_T_0 (js ''2024-03-05T09:15'') = js ''2024-03-05''"
proof -
  let ?S = "[sample_proposicao ''PL 1/2023''
        [''2024-01-10T14:30'', ''2024-03-05T09:15'', ''2023-12-31T23:59'', ''2024-02-01T08:00'',
         ''2024-01-07T22:00'', ''2024-01-06T10:00''],
      sample_proposicao ''PEC 2/2022''
        [''2024-03-05T18:45'', ''2022-06-01T12:00'', ''2024-01-10T07:00'', ''2024-02-29T16:20'',
         ''2023-11-15T11:11'', ''2024-01-08T00:05'']]"
  have h: "\<forall>p\<in>set ?S. \<forall>mov\<in>set (andamentos p). Date_parse (- 10800000) (dataHora mov) \<noteq> None"
    by code_simp
  have n: "length (allMovements ?S) = 12"
    by (simp add: allMovements_def sample_proposicao_def)
  have v: "Date_parse (- 10800000) (js ''2024-03-05T09:15'') \<noteq> None"
    by code_simp
  note t = latestMovements_ten_newest_first [of "- 10800000" ?S "js ''2024-03-05T09:15''"]
  have "length (latestMovements (- 10800000) ?S) = 10"
    using t n by simp
  moreover have "sorted_wrt (\<lambda>a b. date_value (- 10800000) b \<le> date_value (- 10800000) a)
     (latestMovements (- 10800000) ?S)"
    using t h by blast
  moreover have "split_T_0 (js ''2024-03-05T09:15'') = js ''2024-03-05''"
    using t v by simp
  moreover have "list_all (\<lambda>p. list_all (\<lambda>mov. Date_parse (- 10800000) (dataHora mov) \<noteq> None)
        (andamentos p)) ?S"
    using h unfolding list_all_iff .
  ultimately show ?thesis
    by (intro conjI)
qed

section \<open>Properties of the weekly series\<close>

lemma count_or_0_count_movement:
  "count_or_0 (weeklyCounts (count_movement st w c)) d k =
     count_or_0 (weeklyCounts st) d k + (if d = w \<and> k = c then 1 else 0)"
  by (auto simp: count_movement_def count_or_0_def Let_def split: option.splits)

lemma allDates_count_movement:
  "set (allDates (count_movement st w c)) = insert w (set (allDates st))"
  "distinct (allDates st) \<Longrightarrow> distinct (allDates (count_movement st w c))"
  by (auto simp: count_movement_def set_add_def Let_def)

lemma count_andamentos_Some:
  assumes "\<forall>mov\<in>set movs. getWeekStart tza (dataHora mov) \<noteq> None"
  shows "\<exists>st'. count_andamentos tza code st movs = Some st'
    \<and> (\<forall>d k. count_or_0 (weeklyCounts st') d k = count_or_0 (weeklyCounts st) d k
          + (if k = code
             then length (filter (\<lambda>mov. getWeekStart tza (dataHora mov) = Some d) movs) else 0))
    \<and> set (allDates st') = set (allDates st)
          \<union> set (List.map_filter (\<lambda>mov. getWeekStart tza (dataHora mov)) movs)
    \<and> (distinct (allDates st) \<longrightarrow> distinct (allDates st'))"
  using assms
proof (induction movs arbitrary: st)
  case Nil
  show ?case by (simp add: List.map_filter_simps)
next
  case (Cons mov movs)
  from Cons.prems obtain w where w: "getWeekStart tza (dataHora mov) = Some w"
    by auto
  let ?st1 = "count_movement st w code"
  from Cons.prems have "\<forall>mov\<in>set movs. getWeekStart tza (dataHora mov) \<noteq> None"
    by simp
  from Cons.IH [OF this, of ?st1] obtain st' where
    run: "count_andamentos tza code ?st1 movs = Some st'"
    and cnt: "\<And>d k. count_or_0 (weeklyCounts st') d k = count_or_0 (weeklyCounts ?st1) d k
          + (if k = code
             then length (filter (\<lambda>mov. getWeekStart tza (dataHora mov) = Some d) movs) else 0)"
    and dts: "set (allDates st') = set (allDates ?st1)
          \<union> set (List.map_filter (\<lambda>mov. getWeekStart tza (dataHora mov)) movs)"
    and dst: "distinct (allDates ?st1) \<longrightarrow> distinct (allDates st')"
    by blast
  have "count_andamentos tza code st (mov # movs) = Some st'"
    using w run by simp
  moreover have "count_or_0 (weeklyCounts st') d k = count_or_0 (weeklyCounts st) d k
          + (if k = code
             then length (filter (\<lambda>mov. getWeekStart tza (dataHora mov) = Some d) (mov # movs))
             else 0)" for d k
    using w by (auto simp: cnt count_or_0_count_movement)
  moreover have "set (allDates st') = set (allDates st)
          \<union> set (List.map_filter (\<lambda>mov. getWeekStart tza (dataHora mov)) (mov # movs))"
    using w by (simp add: dts allDates_count_movement List.map_filter_simps)
  moreover have "distinct (allDates st) \<longrightarrow> distinct (allDates st')"
    using dst by (simp add: allDates_count_movement)
  ultimately show ?case by blast
qed

lemma count_propositions_Some:
  assumes "\<forall>p\<in>set ps. \<forall>mov\<in>set (andamentos p). getWeekStart tza (dataHora mov) \<noteq> None"
  shows "\<exists>st'. count_propositions tza st ps = Some st'
    \<and> (\<forall>d k. count_or_0 (weeklyCounts st') d k
          = count_or_0 (weeklyCounts st) d k + code_week_count tza ps k d)
    \<and> set (allDates st') = set (allDates st) \<union> set (week_starts tza ps)
    \<and> (distinct (allDates st) \<longrightarrow> distinct (allDates st'))"
  using assms
proof (induction ps arbitrary: st)
  case Nil
  show ?case by (simp add: code_week_count_def week_starts_def)
next
  case (Cons p ps)
  from Cons.prems have "\<forall>mov\<in>set (andamentos p). getWeekStart tza (dataHora mov) \<noteq> None"
    by simp
  from count_andamentos_Some [OF this, of "codigo p" st] obtain st1 where
    run1: "count_andamentos tza (codigo p) st (andamentos p) = Some st1"
    and cnt1: "\<And>d k. count_or_0 (weeklyCounts st1) d k = count_or_0 (weeklyCounts st) d k
          + (if k = codigo p then own_week_count tza p d else 0)"
    and dts1: "set (allDates st1) = set (allDates st)
          \<union> set (List.map_filter (\<lambda>mov. getWeekStart tza (dataHora mov)) (andamentos p))"
    and dst1: "distinct (allDates st) \<longrightarrow> distinct (allDates st1)"
    unfolding own_week_count_def by blast
  from Cons.prems have "\<forall>p\<in>set ps. \<forall>mov\<in>set (andamentos p). getWeekStart tza (dataHora mov) \<noteq> None"
    by simp
  from Cons.IH [OF this, of st1] obtain st' where
    run: "count_propositions tza st1 ps = Some st'"
    and cnt: "\<And>d k. count_or_0 (weeklyCounts st') d k
          = count_or_0 (weeklyCounts st1) d k + code_week_count tza ps k d"
    and dts: "set (allDates st') = set (allDates st1) \<union> set (week_starts tza ps)"
    and dst: "distinct (allDates st1) \<longrightarrow> distinct (allDates st')"
    by blast
  have "count_propositions tza st (p # ps) = Some st'"
    using run1 run by simp
  moreover have "count_or_0 (weeklyCounts st') d k
          = count_or_0 (weeklyCounts st) d k + code_week_count tza (p # ps) k d" for d k
    by (simp add: cnt cnt1 code_week_count_def)
  moreover have "set (allDates st') = set (allDates st) \<union> set (week_starts tza (p # ps))"
    by (auto simp: dts dts1 week_starts_def)
  moreover have "distinct (allDates st) \<longrightarrow> distinct (allDates st')"
    using dst dst1 by simp
  ultimately show ?case by blast
qed

lemma fold_dataPoint:
  "fold (\<lambda>prop dp. dp(codigo prop \<mapsto> Num (f (codigo prop)))) ps m k =
     (if k \<in> codigo ` set ps then Some (Num (f k)) else m k)"
  by (induction ps arbitrary: m rule: rev_induct) auto

lemma getWeekStart_None_iff: "getWeekStart tza s = None \<longleftrightarrow> Date_parse tza s = None"
  by (simp add: getWeekStart_def Let_def split: option.splits)

lemma weeklyMovementData_expected:
  assumes "\<forall>p\<in>set ps. \<forall>mov\<in>set (andamentos p). Date_parse tza (dataHora mov) \<noteq> None"
  shows "weeklyMovementData tza ps
    = Some (map (expected_point tza ps) (sorted_list_of_set (set (week_starts tza ps))))"
proof (cases "ps = []")
  case True
  then show ?thesis
    by (simp add: weeklyMovementData_def week_starts_def)
next
  case False
  let ?st0 = "\<lparr>weeklyCounts = Map.empty, allDates = []\<rparr>"
  from assms have "\<forall>p\<in>set ps. \<forall>mov\<in>set (andamentos p). getWeekStart tza (dataHora mov) \<noteq> None"
    by (simp add: getWeekStart_None_iff)
  from count_propositions_Some [OF this, of ?st0] obtain st where
    run: "count_propositions tza ?st0 ps = Some st"
    and cnt: "\<And>d k. count_or_0 (weeklyCounts st) d k = code_week_count tza ps k d"
    and dts: "set (allDates st) = set (week_starts tza ps)"
    and dst: "distinct (allDates st)"
    by (auto simp: count_or_0_def)
  have "dataPoint (weeklyCounts st) ps d k = expected_point tza ps d k" for d k
    unfolding dataPoint_def expected_point_def
    using fold_dataPoint [of "count_or_0 (weeklyCounts st) d" ps "[js ''name'' \<mapsto> Str d]" k]
    by (simp add: cnt)
  then have "dataPoint (weeklyCounts st) ps d = expected_point tza ps d" for d
    by (intro ext)
  moreover have "sort (allDates st) = sorted_list_of_set (set (week_starts tza ps))"
    using dst dts by (metis distinct_remdups_id sorted_list_of_set_sort_remdups)
  ultimately show ?thesis
    using False run by (simp add: weeklyMovementData_def)
qed


lemma code_week_count_distinct:
  assumes "p \<in> set ps" "distinct (map codigo ps)"
  shows "code_week_count tza ps (codigo p) d = own_week_count tza p d"
proof -
  have "filter (\<lambda>q. codigo q = codigo p) ps = [p]"
    using assms
  proof (induction ps)
    case Nil
    then show ?case by simp
  next
    case (Cons q ps)
    show ?case
    proof (cases "q = p")
      case True
      with Cons.prems have "codigo p \<notin> codigo ` set ps"
        by simp
      then have "\<forall>r\<in>set ps. codigo r \<noteq> codigo p"
        by (metis imageI)
      then have "filter (\<lambda>q. codigo q = codigo p) ps = []"
        by (simp add: filter_empty_conv)
      with True show ?thesis by simp
    next
      case False
      with Cons.prems have "p \<in> set ps" "distinct (map codigo ps)" "codigo q \<noteq> codigo p"
        by auto
      with Cons.IH show ?thesis by simp
    qed
  qed
  then show ?thesis
    by (simp add: code_week_count_def)
qed

lemma name_is_no_code: "parsePropositionCode (js ''name'') = None"
  by (simp add: parsePropositionCode_def match_here_def year_cont_def greedy_def slash_year_def
      is_letter_def is_digit_def is_space_def)

text \<open>
  A timestamp that is no date makes \<open>toISOString\<close> throw, and the effect ends
  without a weekly series.
\<close>

lemma weeklyMovementData_invalid_date:
  "weeklyMovementData 0 [sample_proposicao ''PL 1/2023'' [''ontem'']] = None"
  by code_simp

text \<open>
  C1 as stated fails when two propositions of the list carry the same code (the same
  code entered twice): the counts are kept per code, so the one point of the week
  holds 2 under the code, while each of the two propositions has 1 movement in that
  week.
\<close>

theorem weeklyMovementData_duplicate_code_counterexample:
  "chart_length (weeklyMovementData 0
      [sample_proposicao ''PL 1/2023'' [''2024-01-10T14:30''],
       sample_proposicao ''PL 1/2023'' [''2024-01-11T09:00'']]) = Some 1
   \<and> point_value (weeklyMovementData 0
      [sample_proposicao ''PL 1/2023'' [''2024-01-10T14:30''],
       sample_proposicao ''PL 1/2023'' [''2024-01-11T09:00'']]) 0 (js ''name'')
       = Some (Str (js ''2024-01-07''))
   \<and> point_value (weeklyMovementData 0
      [sample_proposicao ''PL 1/2023'' [''2024-01-10T14:30''],
       sample_proposicao ''PL 1/2023'' [''2024-01-11T09:00'']]) 0 (js ''PL 1/2023'')
       = Some (Num 2)
   \<and> own_week_count 0 (sample_proposicao ''PL 1/2023'' [''2024-01-10T14:30'']) (js ''2024-01-07'') = 1
   \<and> own_week_count 0 (sample_proposicao ''PL 1/2023'' [''2024-01-11T09:00'']) (js ''2024-01-07'') = 1"
  by code_simp

text \<open>
  C1, amended. When the timestamps are ISO-8601, the weekly series has exactly one
  data point per distinct week start observed across all movements, in ascending
  lexicographic order of the week start; each point holds, under every code of the
  list, the number of movements in that week of the propositions carrying this code
  (0 when there is none), which is the proposition's own count when the codes of the
  list are distinct; and, the codes being codes that \<open>parsePropositionCode\<close> accepts,
  the point holds its week start under \<open>name\<close>.
\<close>

theorem weeklyMovementData_dense_by_code:
  "((\<forall>p\<in>set ps. \<forall>mov\<in>set (andamentos p). Date_parse tza (dataHora mov) \<noteq> None) \<longrightarrow>
      weeklyMovementData tza ps
        = Some (map (expected_point tza ps) (sorted_list_of_set (set (week_starts tza ps)))))
   \<and> sorted (sorted_list_of_set (set (week_starts tza ps)))
   \<and> distinct (sorted_list_of_set (set (week_starts tza ps)))
   \<and> set (sorted_list_of_set (set (week_starts tza ps))) = set (week_starts tza ps)
   \<and> (q \<in> set ps \<longrightarrow>
        expected_point tza ps d (codigo q) = Some (Num (code_week_count tza ps (codigo q) d)))
   \<and> ((\<forall>p\<in>set ps. parsePropositionCode (codigo p) \<noteq> None) \<longrightarrow>
        expected_point tza ps d (js ''name'') = Some (Str d))
   \<and> (q \<in> set ps \<and> distinct (map codigo ps) \<longrightarrow>
        code_week_count tza ps (codigo q) d = own_week_count tza q d)"
proof -
  have 1: "weeklyMovementData tza ps
        = Some (map (expected_point tza ps) (sorted_list_of_set (set (week_starts tza ps))))"
    if "\<forall>p\<in>set ps. \<forall>mov\<in>set (andamentos p). Date_parse tza (dataHora mov) \<noteq> None"
    using that by (rule weeklyMovementData_expected)
  have 2: "sorted (sorted_list_of_set (set (week_starts tza ps)))"
    "distinct (sorted_list_of_set (set (week_starts tza ps)))"
    "set (sorted_list_of_set (set (week_starts tza ps))) = set (week_starts tza ps)"
    by simp_all
  have 3: "expected_point tza ps d (codigo q) = Some (Num (code_week_count tza ps (codigo q) d))"
    if "q \<in> set ps"
    using that by (simp add: expected_point_def)
  have 4: "expected_point tza ps d (js ''name'') = Some (Str d)"
    if "\<forall>p\<in>set ps. parsePropositionCode (codigo p) \<noteq> None"
  proof -
    have "js ''name'' \<notin> codigo ` set ps"
      using that name_is_no_code by force
    then show ?thesis
      by (simp add: expected_point_def)
  qed
  have 5: "code_week_count tza ps (codigo q) d = own_week_count tza q d"
    if "q \<in> set ps \<and> distinct (map codigo ps)"
    using that by (simp add: code_week_count_distinct)
  from 1 2 3 4 5 show ?thesis by blast
qed

text \<open>C1, amended, at two propositions with movements in two weeks.\<close>

theorem weeklyMovementData_dense_by_code_witness:
  "list_all (\<lambda>p. list_all (\<lambda>mov. Date_parse 0 (dataHora mov) \<noteq> None) (andamentos p))
      [sample_proposicao ''PL 1/2023'' [''2024-01-10T14:30'', ''2024-02-10T14:30''],
       sample_proposicao ''PEC 2/2022'' [''2024-01-11T09:00'']]
   \<and> list_all (\<lambda>p. parsePropositionCode (codigo p) \<noteq> None)
      [sample_proposicao ''PL 1/2023'' [''2024-01-10T14:30'', ''2024-02-10T14:30''],
       sample_proposicao ''PEC 2/2022'' [''2024-01-11T09:00'']]
   \<and> distinct (map codigo
        [sample_proposicao ''PL 1/2023'' [''2024-01-10T14:30'', ''2024-02-10T14:30''],
         sample_proposicao ''PEC 2/2022'' [''2024-01-11T09:00'']])
   \<and> weeklyMovementData 0
        [sample_proposicao ''PL 1/2023'' [''2024-01-10T14:30'', ''2024-02-10T14:30''],
         sample_proposicao ''PEC 2/2022'' [''2024-01-11T09:00'']]
      = Some (map (expected_point 0
          [sample_proposicao ''PL 1/2023'' [''2024-01-10T14:30'', ''2024-02-10T14:30''],
           sample_proposicao ''PEC 2/2022'' [''2024-01-11T09:00'']])
          [js ''2024-01-07'', js ''2024-02-04''])
   \<and> expected_point 0
        [sample_proposicao ''PL 1/2023'' [''2024-01-10T14:30'', ''2024-02-10T14:30''],
         sample_proposicao ''PEC 2/2022'' [''2024-01-11T09:00'']] (js ''2024-02-04'')
        (js ''name'') = Some (Str (js ''2024-02-04''))
   \<and> expected_point 0
        [sample_proposicao ''PL 1/2023'' [''2024-01-10T14:30'', ''2024-02-10T14:30''],
         sample_proposicao ''PEC 2/2022'' [''2024-01-11T09:00'']] (js ''2024-02-04'')
        (js ''PEC 2/2022'') = Some (Num 0)"
proof -
  let ?p = "sample_proposicao ''PL 1/2023'' [''2024-01-10T14:30'', ''2024-02-10T14:30'']"
  let ?q = "sample_proposicao ''PEC 2/2022'' [''2024-01-11T09:00'']"
  let ?S = "[?p, ?q]"
  have valid: "\<forall>p\<in>set ?S. \<forall>mov\<in>set (andamentos p). Date_parse 0 (dataHora mov) \<noteq> None"
    by code_simp
  have codes: "\<forall>p\<in>set ?S. parsePropositionCode (codigo p) \<noteq> None"
    by code_simp
  have dist: "distinct (map codigo ?S)"
    by (simp add: sample_proposicao_def)
  have mem: "?q \<in> set ?S"
    by simp
  have ws: "sorted_list_of_set (set (week_starts 0 ?S)) = [js ''2024-01-07'', js ''2024-02-04'']"
    by code_simp
  have own: "own_week_count 0 ?q (js ''2024-02-04'') = 0"
    by code_simp
  have cq: "codigo ?q = js ''PEC 2/2022''"
    by (simp add: sample_proposicao_def)
  note t = weeklyMovementData_dense_by_code [of ?S 0 ?q "js ''2024-02-04''"]
  have "weeklyMovementData 0 ?S
      = Some (map (expected_point 0 ?S) [js ''2024-01-07'', js ''2024-02-04''])"
    using t valid unfolding ws by blast
  moreover have "expected_point 0 ?S (js ''2024-02-04'') (js ''name'') = Some (Str (js ''2024-02-04''))"
    using t codes by blast
  moreover have "expected_point 0 ?S (js ''2024-02-04'') (codigo ?q) = Some (Num 0)"
    using t mem dist unfolding own [symmetric] by simp
  moreover have "list_all (\<lambda>p. list_all (\<lambda>mov. Date_parse 0 (dataHora mov) \<noteq> None) (andamentos p)) ?S"
    using valid unfolding list_all_iff .
  moreover have "list_all (\<lambda>p. parsePropositionCode (codigo p) \<noteq> None) ?S"
    using codes unfolding list_all_iff .
  ultimately show ?thesis
    using dist unfolding cq by (intro conjI)
qed

section \<open>Properties of handleProcessPropositions\<close>

lemma process_code_lists:
  "fetchedPropositions (process_code a st c)
     = fetchedPropositions st @ (case code_result a c of Inl e \<Rightarrow> [] | Inr p \<Rightarrow> [p])
   \<and> notFoundCodes (process_code a st c)
     = notFoundCodes st @ (case code_result a c of Inl e \<Rightarrow> [e] | Inr p \<Rightarrow> [])"
  by (simp add: process_code_def code_result_def push_not_found_def catch_error_def issue_def
      Let_def split: option.splits sum.splits)

lemma foldl_process_code_lists:
  "fetchedPropositions (foldl (process_code a) st codes)
     = fetchedPropositions st @ [p. Inr p \<leftarrow> map (code_result a) codes]
   \<and> notFoundCodes (foldl (process_code a) st codes)
     = notFoundCodes st @ [e. Inl e \<leftarrow> map (code_result a) codes]"
proof (induction codes arbitrary: st)
  case Nil
  show ?case by simp
next
  case (Cons c codes)
  show ?case
    using Cons.IH [of "process_code a st c"] process_code_lists [of a st c]
    by (simp split: sum.splits)
qed

lemma process_codes_lists:
  "fetchedPropositions (process_codes a codes) = [p. Inr p \<leftarrow> map (code_result a) codes]"
  "notFoundCodes (process_codes a codes) = [e. Inl e \<leftarrow> map (code_result a) codes]"
  using foldl_process_code_lists [of a _ codes] by (simp_all add: process_codes_def)




lemma code_result_unparseable: "parsePropositionCode c = None \<Longrightarrow> code_result a c = Inl c"
  by (simp add: code_result_def)








lemma requests_process_code:
  "\<exists>rs. requests (process_code a st c) = requests st @ rs
    \<and> (rs = [] \<longleftrightarrow> parsePropositionCode c = None)"
  by (simp add: process_code_def push_not_found_def catch_error_def issue_def Let_def
      split: option.splits sum.splits)

lemma requests_foldl_process_code:
  "\<exists>rs. requests (foldl (process_code a) st codes) = requests st @ rs
    \<and> (rs = [] \<longleftrightarrow> (\<forall>c\<in>set codes. parsePropositionCode c = None))"
proof (induction codes arbitrary: st)
  case Nil
  show ?case by simp
next
  case (Cons c codes)
  from requests_process_code [of a st c] obtain r1 where
    r1: "requests (process_code a st c) = requests st @ r1"
    and e1: "r1 = [] \<longleftrightarrow> parsePropositionCode c = None"
    by (elim exE conjE)
  from Cons.IH [of "process_code a st c"] obtain r2 where
    r2: "requests (foldl (process_code a) (process_code a st c) codes)
        = requests (process_code a st c) @ r2"
    and e2: "r2 = [] \<longleftrightarrow> (\<forall>c\<in>set codes. parsePropositionCode c = None)"
    by (elim exE conjE)
  have "requests (foldl (process_code a) st (c # codes)) = requests st @ (r1 @ r2)"
    using r1 r2 by simp
  moreover have "r1 @ r2 = [] \<longleftrightarrow> (\<forall>c\<in>set (c # codes). parsePropositionCode c = None)"
    using e1 e2 by simp
  ultimately show ?case
    by (intro exI [of _ "r1 @ r2"] conjI)
qed

lemma requests_process_codes:
  "requests (process_codes a codes) = [] \<longleftrightarrow> (\<forall>c\<in>set codes. parsePropositionCode c = None)"
proof -
  from requests_foldl_process_code
    [of a "\<lparr>fetchedPropositions = [], notFoundCodes = [], requests = []\<rparr>" codes]
  obtain rs where "requests (process_codes a codes) = rs"
    and "rs = [] \<longleftrightarrow> (\<forall>c\<in>set codes. parsePropositionCode c = None)"
    unfolding process_codes_def by (elim exE conjE) simp
  then show ?thesis by simp
qed

lemma network_empty_iff:
  "network (handleProcessPropositions a input) = []
    \<longleftrightarrow> (\<forall>c\<in>set (input_codes input). parsePropositionCode c = None)"
  by (simp add: handleProcessPropositions_def Let_def requests_process_codes)

lemma unparseable_results:
  assumes "\<forall>c\<in>set codes. parsePropositionCode c = None"
  shows "[p. Inr p \<leftarrow> map (code_result a) codes] = []
    \<and> [e. Inl e \<leftarrow> map (code_result a) codes] = codes"
  using assms by (induction codes) (simp_all add: code_result_unparseable)

lemma unparseable_state:
  assumes "\<forall>c\<in>set (input_codes input). parsePropositionCode c = None"
  shows "selectedPropositions (handleProcessPropositions a input) = []
    \<and> \<not> isLoading (handleProcessPropositions a input)
    \<and> errorMessage (handleProcessPropositions a input)
        = (if input_codes input = [] then please_enter_code
           else unresolved_message (input_codes input))"
  using unparseable_results [OF assms, of a]
  by (simp add: handleProcessPropositions_def Let_def process_codes_lists)

lemma split_comma_nonempty: "split_comma s \<noteq> []"
  by (induction s) (simp_all split: list.splits)

lemma split_comma_pieces:
  "x \<in> set (split_comma s) \<Longrightarrow> set x \<subseteq> {c \<in> set s. c \<noteq> 0x2C}"
proof (induction s arbitrary: x)
  case Nil
  then show ?case by simp
next
  case (Cons c s)
  show ?case
  proof (cases "c = 0x2C")
    case True
    with Cons show ?thesis by auto
  next
    case False
    obtain y ys where y: "split_comma s = y # ys"
      using split_comma_nonempty [of s] by (cases "split_comma s") simp_all
    with Cons.prems False have "x = c # y \<or> x \<in> set ys"
      by simp
    then show ?thesis
      using Cons.IH [of y] Cons.IH [of x] y False by auto
  qed
qed

lemma trim_spaces: "list_all is_space s \<Longrightarrow> trim s = []"
  by (auto simp: trim_def list_all_iff dest: set_dropWhileD)

lemma blank_input_codes:
  assumes "list_all (\<lambda>c. is_space c \<or> c = 0x2C) input"
  shows "input_codes input = []"
proof -
  have "trim x = []" if "x \<in> set (split_comma input)" for x
  proof -
    from split_comma_pieces [OF that] assms have "list_all is_space x"
      by (auto simp: list_all_iff)
    then show ?thesis by (rule trim_spaces)
  qed
  then show ?thesis
    by (simp add: input_codes_def filter_empty_conv)
qed

lemma messages_not_empty: "please_enter_code \<noteq> [] \<and> unresolved_message xs \<noteq> []"
  by (simp add: please_enter_code_def unresolved_message_def)

text \<open>
  C9. The action issues no request exactly when the input holds no code that parses:
  an empty input, an input of whitespace (and commas), or codes that are all
  unparseable. The proposition list is then empty and one message is shown: the
  request to enter a code when there is no code at all, and the list of the
  unresolved codes with the advice to check them otherwise.
\<close>

theorem handleProcessPropositions_no_request_without_code:
  "(network (handleProcessPropositions a input) = []
      \<longleftrightarrow> (\<forall>c\<in>set (input_codes input). parsePropositionCode c = None))
   \<and> ((\<forall>c\<in>set (input_codes input). parsePropositionCode c = None) \<longrightarrow>
        selectedPropositions (handleProcessPropositions a input) = []
        \<and> \<not> isLoading (handleProcessPropositions a input)
        \<and> errorMessage (handleProcessPropositions a input)
            = (if input_codes input = [] then please_enter_code
               else unresolved_message (input_codes input))
        \<and> errorMessage (handleProcessPropositions a input) \<noteq> [])
   \<and> (list_all (\<lambda>c. is_space c \<or> c = 0x2C) input \<longrightarrow> input_codes input = [])"
proof (intro conjI)
  show "network (handleProcessPropositions a input) = []
      \<longleftrightarrow> (\<forall>c\<in>set (input_codes input). parsePropositionCode c = None)"
    by (rule network_empty_iff)
  show "(\<forall>c\<in>set (input_codes input). parsePropositionCode c = None) \<longrightarrow>
        selectedPropositions (handleProcessPropositions a input) = []
        \<and> \<not> isLoading (handleProcessPropositions a input)
        \<and> errorMessage (handleProcessPropositions a input)
            = (if input_codes input = [] then please_enter_code
               else unresolved_message (input_codes input))
        \<and> errorMessage (handleProcessPropositions a input) \<noteq> []"
    using unparseable_state [of input a] messages_not_empty by simp
  show "list_all (\<lambda>c. is_space c \<or> c = 0x2C) input \<longrightarrow> input_codes input = []"
    by (rule impI) (rule blank_input_codes)
qed

text \<open>C9 at the unparseable input \<open>foo, bar\<close> and at a blank input.\<close>

theorem handleProcessPropositions_no_request_without_code_witness:
  "(list_all (\<lambda>c. parsePropositionCode c = None) (input_codes (js ''foo, bar''))
    \<and> list_all (\<lambda>c. is_space c \<or> c = 0x2C) (js '' ,  ''))
   \<and> (network (handleProcessPropositions sample_api (js ''foo, bar'')) = []
    \<and> selectedPropositions (handleProcessPropositions sample_api (js ''foo, bar'')) = []
    \<and> errorMessage (handleProcessPropositions sample_api (js ''foo, bar''))
        = unresolved_message [js ''foo'', js ''bar'']
    \<and> input_codes (js '' ,  '') = []
    \<and> network (handleProcessPropositions sample_api (js '' ,  '')) = []
    \<and> errorMessage (handleProcessPropositions sample_api (js '' ,  '')) = please_enter_code)"
proof -
  have ic: "input_codes (js ''foo, bar'') = [js ''foo'', js ''bar'']"
    by (simp add: input_codes_def trim_def is_space_def)
  have "parsePropositionCode (js ''foo'') = None" "parsePropositionCode (js ''bar'') = None"
    by (simp_all add: parse_eval)
  then have h1: "\<forall>c\<in>set (input_codes (js ''foo, bar'')). parsePropositionCode c = None"
    unfolding ic by simp
  have h2: "list_all (\<lambda>c. is_space c \<or> c = 0x2C) (js '' ,  '')"
    by (simp add: is_space_def)
  note t1 = handleProcessPropositions_no_request_without_code [of sample_api "js ''foo, bar''"]
  note t2 = handleProcessPropositions_no_request_without_code [of sample_api "js '' ,  ''"]
  have e: "input_codes (js '' ,  '') = []"
    using t2 h2 by (elim conjE) (erule mp)
  have h3: "\<forall>c\<in>set (input_codes (js '' ,  '')). parsePropositionCode c = None"
    unfolding e by simp
  have a1: "network (handleProcessPropositions sample_api (js ''foo, bar'')) = []"
    using t1 h1 by (elim conjE) (erule iffD2)
  have a2: "selectedPropositions (handleProcessPropositions sample_api (js ''foo, bar'')) = []
    \<and> errorMessage (handleProcessPropositions sample_api (js ''foo, bar''))
        = unresolved_message [js ''foo'', js ''bar'']"
    using t1 [THEN conjunct2, THEN conjunct1, THEN mp, OF h1] unfolding ic by simp
  have a3: "network (handleProcessPropositions sample_api (js '' ,  '')) = []"
    using t2 h3 by (elim conjE) (erule iffD2)
  have a4: "errorMessage (handleProcessPropositions sample_api (js '' ,  '')) = please_enter_code"
    using t2 [THEN conjunct2, THEN conjunct1, THEN mp, OF h3] unfolding e by simp
  have h1': "list_all (\<lambda>c. parsePropositionCode c = None) (input_codes (js ''foo, bar''))"
    using h1 unfolding list_all_iff .
  show ?thesis
    using h1' h2 a1 a2 e a3 a4 by (intro conjI) (simp_all only:)
qed

end
